theory Spec2Isabelle
  imports Complex_Main "HOL-Library.Multiset" "HOL-Library.Word"
begin

section \<open>Fill gradient attribute: data model\<close>

text \<open>
  The development follows \<^verbatim>\<open>drawinglayer/source/attribute/fillgradientattribute.cxx\<close>.
  Offsets and colour channels are \<^verbatim>\<open>double\<close> in the source. The constructor only
  compares them, so they are modelled as \<^typ>\<open>real\<close>: the model covers finite values
  (no NaN), on which \<^verbatim>\<open><\<close> and \<^verbatim>\<open>==\<close> of the source agree with the order of the
  reals.
\<close>

text \<open>
  Modelled from the spec: \<^verbatim>\<open>basegfx::BColor\<close> is declared outside this file; the spec
  describes it as an RGB triple compared exactly, component by component.
\<close>

datatype BColor = BColor (getRed: real) (getGreen: real) (getBlue: real)

text \<open>
  Modelled from the spec: \<^verbatim>\<open>basegfx::ColorStep\<close> is declared outside this file; the spec
  describes it as a pair of an offset and a colour, ordered by offset alone, with exact
  equality on both parts.
\<close>

datatype ColorStep = ColorStep (getOffset: real) (getColor: BColor)

type_synonym ColorSteps = "ColorStep list"

text \<open>
  Modelled from the spec: the style enumeration is declared outside this file; the spec
  names the variants linear, axial, radial, elliptical, square and rectangular.
\<close>

datatype GradientStyle = Linear | Axial | Radial | Elliptical | Square | Rect

record ImpFillGradientAttribute =
  mfBorder :: real
  mfOffsetX :: real
  mfOffsetY :: real
  mfAngle :: real
  maColorSteps :: ColorSteps
  meStyle :: GradientStyle
  mnSteps :: "16 word"

section \<open>Collaborators of the constructor\<close>

text \<open>
  Modelled from the spec: \<^verbatim>\<open>basegfx::fTools::equal\<close>, \<^verbatim>\<open>lessOrEqual\<close> and
  \<^verbatim>\<open>moreOrEqual\<close> are declared outside this file. The spec describes them as "nearly
  equal/less/greater" comparisons with one fixed small epsilon; the epsilon itself is not
  given and is the parameter \<open>eps\<close> of the model.
\<close>

definition fTools_equal :: "real \<Rightarrow> real \<Rightarrow> real \<Rightarrow> bool" where
  "fTools_equal eps a b = (\<bar>a - b\<bar> \<le> eps)"

definition fTools_lessOrEqual :: "real \<Rightarrow> real \<Rightarrow> real \<Rightarrow> bool" where
  "fTools_lessOrEqual eps a b = (a < b \<or> fTools_equal eps a b)"

definition fTools_moreOrEqual :: "real \<Rightarrow> real \<Rightarrow> real \<Rightarrow> bool" where
  "fTools_moreOrEqual eps a b = (b < a \<or> fTools_equal eps a b)"

text \<open>
  \<^verbatim>\<open>std::sort\<close> is the C++ standard library's. Its contract is that the result is a
  permutation of the range, ordered by \<^verbatim>\<open>operator<\<close> of the elements (here: by offset);
  the order of elements that compare equivalent is not fixed. The sort is therefore a
  parameter \<open>srt\<close> of the model, and \<open>std_sort_post\<close> is the contract.
\<close>

definition std_sort_post :: "(ColorSteps \<Rightarrow> ColorSteps) \<Rightarrow> bool" where
  "std_sort_post srt = (\<forall>xs. mset (srt xs) = mset xs \<and> sorted (map getOffset (srt xs)))"


text \<open>
  \<^verbatim>\<open>std::vector::resize\<close>: shrinking keeps a prefix, growing appends value-initialised
  elements.
\<close>

definition resize :: "nat \<Rightarrow> ColorSteps \<Rightarrow> ColorSteps" where
  "resize n v =
     (if n \<le> length v then take n v
      else v @ replicate (n - length v) (ColorStep 0 (BColor 0 0 0)))"

section \<open>The constructor of \<^verbatim>\<open>ImpFillGradientAttribute\<close>\<close>

text \<open>
  The compaction loop (source lines 82 to 115), with its two heads on the vector:
  \<open>cur\<close> is \<^verbatim>\<open>curr\<close> and \<open>nxt\<close> is \<^verbatim>\<open>next\<close> of the source. The result is the
  vector, the final \<open>cur\<close> and the flag \<^verbatim>\<open>bAllTheSameColor\<close>. The loop reads the
  vector at \<open>nxt\<close>, below the length by the loop test, and at \<open>cur\<close> and writes it at
  \<open>cur + 1\<close>; it starts with \<open>cur = 0\<close> and \<open>nxt = 1\<close> and keeps \<open>cur < nxt\<close>, so every
  access is in range.
\<close>

function compact_loop ::
  "real \<Rightarrow> BColor \<Rightarrow> ColorSteps \<Rightarrow> nat \<Rightarrow> nat \<Rightarrow> bool \<Rightarrow> ColorSteps \<times> nat \<times> bool" where
  "compact_loop eps rStartColor v cur nxt bAllTheSameColor =
     (if nxt < length v then
        (let fNextOffset = getOffset (v ! nxt) in
         if fTools_lessOrEqual eps fNextOffset 0
         then compact_loop eps rStartColor v cur (nxt + 1) bAllTheSameColor
         else if fTools_moreOrEqual eps fNextOffset 1
         then compact_loop eps rStartColor v cur (nxt + 1) bAllTheSameColor
         else
           (let fCurrOffset = getOffset (v ! cur) in
            if fTools_equal eps fNextOffset fCurrOffset
            then compact_loop eps rStartColor v cur (nxt + 1) bAllTheSameColor
            else
              (let cur' = cur + 1;
                   v' = (if cur' \<noteq> nxt then v[cur' := v ! nxt] else v)
               in compact_loop eps rStartColor v' cur' (nxt + 1)
                    (bAllTheSameColor \<and> getColor (v' ! cur') = rStartColor))))
      else (v, cur, bAllTheSameColor))"
  by pat_completeness auto
termination
  by (relation "measure (\<lambda>(eps, rStartColor, v, cur, nxt, b). length v - nxt)") auto

declare compact_loop.simps [simp del]

text \<open>
  The body of the constructor (source lines 55 to 146): the value of \<^verbatim>\<open>maColorSteps\<close>
  when the constructor returns. \<^verbatim>\<open>pColorSteps\<close> is a pointer that may be null
  (\<open>None\<close>).
\<close>

definition ctor_maColorSteps ::
  "(ColorSteps \<Rightarrow> ColorSteps) \<Rightarrow> real \<Rightarrow> BColor \<Rightarrow> BColor \<Rightarrow> ColorSteps option \<Rightarrow> ColorSteps" where
  "ctor_maColorSteps srt eps rStartColor rEndColor pColorSteps =
     (let v0 = [ColorStep 0 rStartColor] in
      if pColorSteps \<noteq> None \<and> the pColorSteps \<noteq> [] then
        (let v1 = v0 @ the pColorSteps;
             v2 = take 1 v1 @ srt (drop 1 v1);
             (v3, cur, bAllTheSameColor) =
                compact_loop eps rStartColor v2 0 1 (rStartColor = rEndColor)
         in if bAllTheSameColor then resize 1 v3
            else
              (let cur' = cur + 1;
                   v4 = (if cur' \<noteq> length v3 then resize cur' v3 else v3)
               in if 1 < cur' \<or> rStartColor \<noteq> rEndColor
                  then v4 @ [ColorStep 1 rEndColor]
                  else v4))
      else
        (if rStartColor \<noteq> rEndColor then v0 @ [ColorStep 1 rEndColor] else v0))"

definition ImpFillGradientAttribute_ctor ::
  "(ColorSteps \<Rightarrow> ColorSteps) \<Rightarrow> real \<Rightarrow> GradientStyle \<Rightarrow> real \<Rightarrow> real \<Rightarrow> real \<Rightarrow> real \<Rightarrow>
   BColor \<Rightarrow> BColor \<Rightarrow> ColorSteps option \<Rightarrow> 16 word \<Rightarrow> ImpFillGradientAttribute" where
  "ImpFillGradientAttribute_ctor srt eps eStyle fBorder fOffsetX fOffsetY fAngle
       rStartColor rEndColor pColorSteps nSteps =
     \<lparr> mfBorder = fBorder, mfOffsetX = fOffsetX, mfOffsetY = fOffsetY, mfAngle = fAngle,
       maColorSteps = ctor_maColorSteps srt eps rStartColor rEndColor pColorSteps,
       meStyle = eStyle, mnSteps = nSteps \<rparr>"

text \<open>The default constructor (source lines 149 to 160).\<close>

definition ImpFillGradientAttribute_default :: ImpFillGradientAttribute where
  "ImpFillGradientAttribute_default =
     \<lparr> mfBorder = 0, mfOffsetX = 0, mfOffsetY = 0, mfAngle = 0,
       maColorSteps = [ColorStep 0 (BColor 0 0 0)],
       meStyle = Linear, mnSteps = 0 \<rparr>"

definition hasSingleColor :: "ImpFillGradientAttribute \<Rightarrow> bool" where
  "hasSingleColor a = (length (maColorSteps a) < 2)"

text \<open>\<^verbatim>\<open>ImpFillGradientAttribute::operator==\<close> (source lines 180 to 189).\<close>

definition Imp_equal :: "ImpFillGradientAttribute \<Rightarrow> ImpFillGradientAttribute \<Rightarrow> bool" where
  "Imp_equal a rCandidate =
     (meStyle a = meStyle rCandidate
      \<and> mfBorder a = mfBorder rCandidate
      \<and> mfOffsetX a = mfOffsetX rCandidate
      \<and> mfOffsetY a = mfOffsetY rCandidate
      \<and> mfAngle a = mfAngle rCandidate
      \<and> maColorSteps a = maColorSteps rCandidate
      \<and> mnSteps a = mnSteps rCandidate)"

section \<open>The filter of the spec\<close>

text \<open>
  Following the spec's words (section 4.2, step 4), for comparison with the loop of the
  source: a candidate is skipped if its offset is at most 0, at least 1, or equal to the
  offset of the last kept stop, each within epsilon; otherwise it is kept.
\<close>

fun survivors :: "real \<Rightarrow> real \<Rightarrow> ColorSteps \<Rightarrow> ColorSteps" where
  "survivors eps fCurr [] = []"
| "survivors eps fCurr (s # ss) =
     (if fTools_lessOrEqual eps (getOffset s) 0
         \<or> fTools_moreOrEqual eps (getOffset s) 1
         \<or> fTools_equal eps (getOffset s) fCurr
      then survivors eps fCurr ss
      else s # survivors eps (getOffset s) ss)"

text \<open>The three skip tests of the loop, taken together.\<close>

definition skips :: "real \<Rightarrow> real \<Rightarrow> real \<Rightarrow> bool" where
  "skips eps fCurr fNext =
     (fTools_lessOrEqual eps fNext 0
      \<or> fTools_moreOrEqual eps fNext 1
      \<or> fTools_equal eps fNext fCurr)"

text \<open>
  The stops of a canonical sequence strictly between its first stop and its last one.
\<close>

definition interior :: "ColorSteps \<Rightarrow> ColorSteps" where
  "interior v = butlast (tl v)"

text \<open>The raw stops behind the pointer: none when it is null.\<close>

definition rawStops :: "ColorSteps option \<Rightarrow> ColorSteps" where
  "rawStops pColorSteps = (case pColorSteps of None \<Rightarrow> [] | Some cs \<Rightarrow> cs)"

text \<open>A stable sort that meets the contract of \<^verbatim>\<open>std::sort\<close>.\<close>

definition stable_sort :: "ColorSteps \<Rightarrow> ColorSteps" where
  "stable_sort xs = sort_key getOffset xs"

text \<open>Colours of the spec's examples.\<close>

definition black :: BColor where "black = BColor 0 0 0"
definition white :: BColor where "white = BColor 1 1 1"
definition red :: BColor where "red = BColor 1 0 0"
definition green :: BColor where "green = BColor 0 1 0"
definition blue :: BColor where "blue = BColor 0 0 1"
definition yellow :: BColor where "yellow = BColor 1 1 0"

section \<open>\<^verbatim>\<open>FillGradientAttribute\<close>: handles on shared storage\<close>

text \<open>
  A \<^verbatim>\<open>FillGradientAttribute\<close> holds one member, \<^verbatim>\<open>mpFillGradientAttribute\<close>, a
  copy-on-write handle on a shared \<^verbatim>\<open>ImpFillGradientAttribute\<close>. Whether two handles
  share storage matters to \<^verbatim>\<open>isDefault\<close>, so the model has an explicit store: the
  shared objects allocated so far, addressed by their index, and the function-local static
  \<^verbatim>\<open>SINGLETON\<close> of \<^verbatim>\<open>theGlobalDefault\<close>, which is \<open>None\<close> until the first call
  initialises it. Objects are never freed in the model.
\<close>

record store =
  heap :: "ImpFillGradientAttribute list"
  SINGLETON :: "nat option"

datatype FillGradientAttribute = FillGradientAttribute (mpFillGradientAttribute: nat)

definition initial_store :: store where
  "initial_store = \<lparr> heap = [], SINGLETON = None \<rparr>"

text \<open>\<^verbatim>\<open>theGlobalDefault\<close> (source lines 194 to 198).\<close>

definition theGlobalDefault :: "store \<Rightarrow> nat \<times> store" where
  "theGlobalDefault s =
     (case SINGLETON s of
        Some a \<Rightarrow> (a, s)
      | None \<Rightarrow>
          (length (heap s),
           s\<lparr> heap := heap s @ [ImpFillGradientAttribute_default],
              SINGLETON := Some (length (heap s)) \<rparr>))"

text \<open>The explicit constructor (source lines 201 to 214) allocates a new shared object.\<close>

definition FillGradientAttribute_ctor ::
  "(ColorSteps \<Rightarrow> ColorSteps) \<Rightarrow> real \<Rightarrow> GradientStyle \<Rightarrow> real \<Rightarrow> real \<Rightarrow> real \<Rightarrow> real \<Rightarrow>
   BColor \<Rightarrow> BColor \<Rightarrow> ColorSteps option \<Rightarrow> 16 word \<Rightarrow> store \<Rightarrow> FillGradientAttribute \<times> store" where
  "FillGradientAttribute_ctor srt eps eStyle fBorder fOffsetX fOffsetY fAngle
       rStartColor rEndColor pColorSteps nSteps s =
     (FillGradientAttribute (length (heap s)),
      s\<lparr> heap := heap s @
            [ImpFillGradientAttribute_ctor srt eps eStyle fBorder fOffsetX fOffsetY fAngle
               rStartColor rEndColor pColorSteps nSteps] \<rparr>)"

text \<open>The default constructor (source lines 216 to 219) copies the singleton's handle.\<close>

definition FillGradientAttribute_default :: "store \<Rightarrow> FillGradientAttribute \<times> store" where
  "FillGradientAttribute_default s =
     (let (a, s') = theGlobalDefault s in (FillGradientAttribute a, s'))"

text \<open>
  Modelled from the spec: the handle type \<^verbatim>\<open>o3tl::cow_wrapper\<close> is declared outside this
  file. \<^verbatim>\<open>same_object\<close> tests storage identity; equality of two handles holds when they
  share storage or when the stored values compare equal.
\<close>

definition same_object :: "FillGradientAttribute \<Rightarrow> FillGradientAttribute \<Rightarrow> bool" where
  "same_object a b = (mpFillGradientAttribute a = mpFillGradientAttribute b)"

definition cow_equal :: "FillGradientAttribute \<Rightarrow> FillGradientAttribute \<Rightarrow> store \<Rightarrow> bool" where
  "cow_equal a b s =
     (same_object a b
      \<or> Imp_equal (heap s ! mpFillGradientAttribute a) (heap s ! mpFillGradientAttribute b))"

text \<open>\<^verbatim>\<open>isDefault\<close> (source lines 227 to 230).\<close>

definition isDefault :: "FillGradientAttribute \<Rightarrow> store \<Rightarrow> bool \<times> store" where
  "isDefault h s =
     (let (a, s') = theGlobalDefault s in (same_object h (FillGradientAttribute a), s'))"

text \<open>\<^verbatim>\<open>FillGradientAttribute::operator==\<close> (source lines 241 to 248).\<close>

definition FillGradientAttribute_equal ::
  "FillGradientAttribute \<Rightarrow> FillGradientAttribute \<Rightarrow> store \<Rightarrow> bool \<times> store" where
  "FillGradientAttribute_equal h rCandidate s =
     (let (dc, s1) = isDefault rCandidate s;
          (dh, s2) = isDefault h s1
      in if dc \<noteq> dh then (False, s2) else (cow_equal rCandidate h s2, s2))"

text \<open>The read accessors (source lines 250 to 283).\<close>

definition deref :: "FillGradientAttribute \<Rightarrow> store \<Rightarrow> ImpFillGradientAttribute" where
  "deref h s = heap s ! mpFillGradientAttribute h"

definition getColorSteps :: "FillGradientAttribute \<Rightarrow> store \<Rightarrow> ColorSteps" where
  "getColorSteps h s = maColorSteps (deref h s)"

definition getBorder :: "FillGradientAttribute \<Rightarrow> store \<Rightarrow> real" where
  "getBorder h s = mfBorder (deref h s)"

definition getOffsetX :: "FillGradientAttribute \<Rightarrow> store \<Rightarrow> real" where
  "getOffsetX h s = mfOffsetX (deref h s)"

definition getOffsetY :: "FillGradientAttribute \<Rightarrow> store \<Rightarrow> real" where
  "getOffsetY h s = mfOffsetY (deref h s)"

definition getAngle :: "FillGradientAttribute \<Rightarrow> store \<Rightarrow> real" where
  "getAngle h s = mfAngle (deref h s)"

definition getStyle :: "FillGradientAttribute \<Rightarrow> store \<Rightarrow> GradientStyle" where
  "getStyle h s = meStyle (deref h s)"

definition getSteps :: "FillGradientAttribute \<Rightarrow> store \<Rightarrow> 16 word" where
  "getSteps h s = mnSteps (deref h s)"

text \<open>
  A store is well formed when the singleton, once initialised, is an allocated object.
\<close>

definition store_inv :: "store \<Rightarrow> bool" where
  "store_inv s = (case SINGLETON s of None \<Rightarrow> True | Some a \<Rightarrow> a < length (heap s))"

text \<open>
  One step of a program using the attribute: any of the operations that touch the store.
  Copying, moving and destroying a handle leave the store of the model as it is.
\<close>

inductive store_step :: "store \<Rightarrow> store \<Rightarrow> bool" where
  step_default: "store_step s (snd (FillGradientAttribute_default s))"
| step_ctor:
    "store_step s
       (snd (FillGradientAttribute_ctor srt eps eStyle fBorder fOffsetX fOffsetY fAngle
               rStartColor rEndColor pColorSteps nSteps s))"
| step_isDefault: "store_step s (snd (isDefault h s))"
| step_equal: "store_step s (snd (FillGradientAttribute_equal h rCandidate s))"

text \<open>
  A handle is explicit in a store when its object is allocated and is not the singleton.
\<close>

definition explicit_handle :: "FillGradientAttribute \<Rightarrow> store \<Rightarrow> bool" where
  "explicit_handle e s =
     (mpFillGradientAttribute e < length (heap s)
      \<and> SINGLETON s \<noteq> Some (mpFillGradientAttribute e))"



definition example_store_a :: store where
  "example_store_a =
     snd (FillGradientAttribute_ctor stable_sort (1 / 1000) Linear 0 0 0 0 black black None 0
            initial_store)"

definition example_store_b :: store where
  "example_store_b = snd (FillGradientAttribute_default example_store_a)"

section \<open>\<^verbatim>\<open>std::sort\<close> of the GNU C++ library\<close>

text \<open>
  The claims about the canonical sequence are proved from the contract of \<^verbatim>\<open>std::sort\<close>
  alone. What the program does with raw stops of equal offset depends on the library it
  is built with. This section follows the implementation of \<^verbatim>\<open>std::sort\<close> in the GNU
  C++ library (\<^verbatim>\<open>bits/stl_algo.h\<close> and \<^verbatim>\<open>bits/stl_heap.h\<close>), function by function:
  an introsort that partitions ranges of more than 16 elements around a median of three,
  falls back to heap sort when its depth limit is used up, and finishes with an insertion
  sort. The functions work on the whole vector and the positions \<open>first\<close> and \<open>lst\<close>
  (\<^verbatim>\<open>__last\<close> in the library) of a range in it.

  Some of the library's loops are unguarded: they rely on the pivot, or on an element
  already in place, to stop a scan inside the range. The model adds the end of the vector
  as a bound to each such scan, so that the functions are total; a scan that stops inside
  the range, as every scan of a call of \<^verbatim>\<open>std::sort\<close> does, never meets the bound.
\<close>

text \<open>
  Modelled from the spec: \<^verbatim>\<open>ColorStep::operator<\<close> is declared outside this file; the
  spec says that it orders purely by offset.
\<close>

definition ColorStep_less :: "ColorStep \<Rightarrow> ColorStep \<Rightarrow> bool" where
  "ColorStep_less a b = (getOffset a < getOffset b)"

text \<open>\<^verbatim>\<open>std::__lg\<close>: the binary logarithm, rounded down.\<close>

fun std_lg :: "nat \<Rightarrow> nat" where
  "std_lg n = (if n < 2 then 0 else Suc (std_lg (n div 2)))"

definition iter_swap :: "nat \<Rightarrow> nat \<Rightarrow> ColorSteps \<Rightarrow> ColorSteps" where
  "iter_swap a b v = v[a := v ! b, b := v ! a]"

text \<open>
  The insertion sorts. \<^verbatim>\<open>__unguarded_linear_insert\<close> moves the element at \<open>lst\<close> down
  past every element that is greater; \<^verbatim>\<open>__insertion_sort\<close> moves an element that is less
  than the first one to the front with \<^verbatim>\<open>move_backward\<close> and inserts any other one
  linearly. The loops over \<open>i\<close> run while \<open>i\<close> differs from the end of the range, which
  \<open>i\<close> approaches from below.
\<close>

function linear_insert_loop :: "ColorSteps \<Rightarrow> ColorStep \<Rightarrow> nat \<Rightarrow> ColorSteps" where
  "linear_insert_loop v val lst =
     (if 0 < lst \<and> ColorStep_less val (v ! (lst - 1))
      then linear_insert_loop (v[lst := v ! (lst - 1)]) val (lst - 1)
      else v[lst := val])"
  by pat_completeness auto
termination
  by (relation "measure (\<lambda>(v, val, lst). lst)") auto

declare linear_insert_loop.simps [simp del]

definition unguarded_linear_insert :: "ColorSteps \<Rightarrow> nat \<Rightarrow> ColorSteps" where
  "unguarded_linear_insert v lst = linear_insert_loop v (v ! lst) lst"

definition move_backward :: "ColorSteps \<Rightarrow> nat \<Rightarrow> nat \<Rightarrow> ColorSteps" where
  "move_backward v first i =
     take (first + 1) v @ take (i - first) (drop first v) @ drop (i + 1) v"

function insertion_sort_loop :: "ColorSteps \<Rightarrow> nat \<Rightarrow> nat \<Rightarrow> nat \<Rightarrow> ColorSteps" where
  "insertion_sort_loop v first i lst =
     (if i < lst then
        insertion_sort_loop
          (if ColorStep_less (v ! i) (v ! first)
           then (move_backward v first i)[first := v ! i]
           else unguarded_linear_insert v i)
          first (i + 1) lst
      else v)"
  by pat_completeness auto
termination
  by (relation "measure (\<lambda>(v, first, i, lst). lst - i)") auto

declare insertion_sort_loop.simps [simp del]

definition insertion_sort :: "ColorSteps \<Rightarrow> nat \<Rightarrow> nat \<Rightarrow> ColorSteps" where
  "insertion_sort v first lst =
     (if first = lst then v else insertion_sort_loop v first (first + 1) lst)"

function unguarded_insertion_sort :: "ColorSteps \<Rightarrow> nat \<Rightarrow> nat \<Rightarrow> ColorSteps" where
  "unguarded_insertion_sort v i lst =
     (if i < lst then unguarded_insertion_sort (unguarded_linear_insert v i) (i + 1) lst
      else v)"
  by pat_completeness auto
termination
  by (relation "measure (\<lambda>(v, i, lst). lst - i)") auto

declare unguarded_insertion_sort.simps [simp del]

definition final_insertion_sort :: "ColorSteps \<Rightarrow> nat \<Rightarrow> nat \<Rightarrow> ColorSteps" where
  "final_insertion_sort v first lst =
     (if 16 < lst - first
      then unguarded_insertion_sort (insertion_sort v first (first + 16)) (first + 16) lst
      else insertion_sort v first lst)"

text \<open>
  The heap functions of the fallback. An index into the heap is relative to \<open>first\<close>;
  \<open>len\<close> is at least 1 wherever \<^verbatim>\<open>__adjust_heap\<close> is called.
\<close>

function push_heap :: "ColorSteps \<Rightarrow> nat \<Rightarrow> nat \<Rightarrow> nat \<Rightarrow> ColorStep \<Rightarrow> ColorSteps" where
  "push_heap v first holeIndex topIndex val =
     (if topIndex < holeIndex \<and> ColorStep_less (v ! (first + (holeIndex - 1) div 2)) val
      then push_heap (v[first + holeIndex := v ! (first + (holeIndex - 1) div 2)])
             first ((holeIndex - 1) div 2) topIndex val
      else v[first + holeIndex := val])"
  by pat_completeness auto
termination
  by (relation "measure (\<lambda>(v, first, holeIndex, topIndex, val). holeIndex)") auto

declare push_heap.simps [simp del]

function adjust_heap_loop ::
  "ColorSteps \<Rightarrow> nat \<Rightarrow> nat \<Rightarrow> nat \<Rightarrow> nat \<Rightarrow> ColorSteps \<times> nat \<times> nat" where
  "adjust_heap_loop v first len holeIndex secondChild =
     (if secondChild < (len - 1) div 2 then
        (let sc = 2 * (secondChild + 1);
             sc' = (if ColorStep_less (v ! (first + sc)) (v ! (first + (sc - 1)))
                    then sc - 1 else sc)
         in adjust_heap_loop (v[first + holeIndex := v ! (first + sc')]) first len sc' sc')
      else (v, holeIndex, secondChild))"
  by pat_completeness auto
termination
  by (relation "measure (\<lambda>(v, first, len, holeIndex, secondChild). len - secondChild)") auto

declare adjust_heap_loop.simps [simp del]

definition adjust_heap :: "ColorSteps \<Rightarrow> nat \<Rightarrow> nat \<Rightarrow> nat \<Rightarrow> ColorStep \<Rightarrow> ColorSteps" where
  "adjust_heap v first holeIndex len val =
     (let topIndex = holeIndex;
          (v1, holeIndex1, secondChild) = adjust_heap_loop v first len holeIndex holeIndex;
          (v2, holeIndex2) =
             (if even len \<and> secondChild = (len - 2) div 2
              then (v1[first + holeIndex1 := v1 ! (first + (2 * (secondChild + 1) - 1))],
                    2 * (secondChild + 1) - 1)
              else (v1, holeIndex1))
      in push_heap v2 first holeIndex2 topIndex val)"

definition pop_heap :: "ColorSteps \<Rightarrow> nat \<Rightarrow> nat \<Rightarrow> nat \<Rightarrow> ColorSteps" where
  "pop_heap v first lst result =
     adjust_heap (v[result := v ! first]) first 0 (lst - first) (v ! result)"

fun make_heap_loop :: "ColorSteps \<Rightarrow> nat \<Rightarrow> nat \<Rightarrow> nat \<Rightarrow> ColorSteps" where
  "make_heap_loop v first len 0 = adjust_heap v first 0 len (v ! first)"
| "make_heap_loop v first len (Suc parent) =
     make_heap_loop (adjust_heap v first (Suc parent) len (v ! (first + Suc parent)))
       first len parent"

definition make_heap :: "ColorSteps \<Rightarrow> nat \<Rightarrow> nat \<Rightarrow> ColorSteps" where
  "make_heap v first lst =
     (if lst - first < 2 then v
      else make_heap_loop v first (lst - first) ((lst - first - 2) div 2))"

function sort_heap :: "ColorSteps \<Rightarrow> nat \<Rightarrow> nat \<Rightarrow> ColorSteps" where
  "sort_heap v first lst =
     (if 1 < lst - first
      then sort_heap (pop_heap v first (lst - 1) (lst - 1)) first (lst - 1)
      else v)"
  by pat_completeness auto
termination
  by (relation "measure (\<lambda>(v, first, lst). lst - first)") auto

declare sort_heap.simps [simp del]

function heap_select_loop :: "ColorSteps \<Rightarrow> nat \<Rightarrow> nat \<Rightarrow> nat \<Rightarrow> nat \<Rightarrow> ColorSteps" where
  "heap_select_loop v first middle i lst =
     (if i < lst then
        heap_select_loop
          (if ColorStep_less (v ! i) (v ! first) then pop_heap v first middle i else v)
          first middle (i + 1) lst
      else v)"
  by pat_completeness auto
termination
  by (relation "measure (\<lambda>(v, first, middle, i, lst). lst - i)") auto

declare heap_select_loop.simps [simp del]

definition partial_sort :: "ColorSteps \<Rightarrow> nat \<Rightarrow> nat \<Rightarrow> nat \<Rightarrow> ColorSteps" where
  "partial_sort v first middle lst =
     sort_heap (heap_select_loop (make_heap v first middle) first middle middle lst)
       first middle"

text \<open>
  The partition. \<^verbatim>\<open>__move_median_to_first\<close> swaps the median of three elements to the
  front of the range; \<^verbatim>\<open>__unguarded_partition\<close> scans up from the left and down from
  the right and swaps the two elements the scans stop at, until the scans meet.
\<close>

definition move_median_to_first ::
  "ColorSteps \<Rightarrow> nat \<Rightarrow> nat \<Rightarrow> nat \<Rightarrow> nat \<Rightarrow> ColorSteps" where
  "move_median_to_first v result a b c =
     (if ColorStep_less (v ! a) (v ! b) then
        (if ColorStep_less (v ! b) (v ! c) then iter_swap result b v
         else if ColorStep_less (v ! a) (v ! c) then iter_swap result c v
         else iter_swap result a v)
      else if ColorStep_less (v ! a) (v ! c) then iter_swap result a v
      else if ColorStep_less (v ! b) (v ! c) then iter_swap result c v
      else iter_swap result b v)"

function scan_up :: "ColorSteps \<Rightarrow> nat \<Rightarrow> nat \<Rightarrow> nat" where
  "scan_up v pivot first =
     (if first < length v \<and> ColorStep_less (v ! first) (v ! pivot)
      then scan_up v pivot (first + 1) else first)"
  by pat_completeness auto
termination
  by (relation "measure (\<lambda>(v, pivot, first). length v - first)") auto

declare scan_up.simps [simp del]

function scan_down :: "ColorSteps \<Rightarrow> nat \<Rightarrow> nat \<Rightarrow> nat" where
  "scan_down v pivot lst =
     (if 0 < lst \<and> ColorStep_less (v ! pivot) (v ! lst)
      then scan_down v pivot (lst - 1) else lst)"
  by pat_completeness auto
termination
  by (relation "measure (\<lambda>(v, pivot, lst). lst)") auto

declare scan_down.simps [simp del]

function unguarded_partition ::
  "ColorSteps \<Rightarrow> nat \<Rightarrow> nat \<Rightarrow> nat \<Rightarrow> ColorSteps \<times> nat" where
  "unguarded_partition v first lst pivot =
     (let first' = scan_up v pivot first;
          lst' = scan_down v pivot (lst - 1)
      in if \<not> first' < lst' then (v, first')
         else unguarded_partition (iter_swap first' lst' v) (first' + 1) lst' pivot)"
  by pat_completeness auto
termination
proof (relation "measure (\<lambda>(v, first, lst, pivot). lst - first)", goal_cases)
  case 1
  show ?case by simp
next
  case (2 v first lst pivot first' lst')
  have up: "f \<le> scan_up w p f" for w p f
  proof (induction w p f rule: scan_up.induct)
    case (1 w p f)
    show ?case
    proof (cases "f < length w \<and> ColorStep_less (w ! f) (w ! p)")
      case True
      have "scan_up w p f = scan_up w p (f + 1)"
        by (subst scan_up.simps[of w p f]) (simp only: True simp_thms if_True)
      with 1 True show ?thesis by simp
    next
      case False
      have "scan_up w p f = f"
        by (subst scan_up.simps[of w p f]) (simp only: False if_False)
      then show ?thesis by simp
    qed
  qed
  have down: "scan_down w p l \<le> l" for w p l
  proof (induction w p l rule: scan_down.induct)
    case (1 w p l)
    show ?case
    proof (cases "0 < l \<and> ColorStep_less (w ! p) (w ! l)")
      case True
      have "scan_down w p l = scan_down w p (l - 1)"
        by (subst scan_down.simps[of w p l]) (simp only: True simp_thms if_True)
      with 1 True show ?thesis by simp
    next
      case False
      have "scan_down w p l = l"
        by (subst scan_down.simps[of w p l]) (simp only: False if_False)
      then show ?thesis by simp
    qed
  qed
  have "first \<le> first'" "lst' \<le> lst - 1"
    using 2 up down by simp_all
  then show ?case using 2 by simp
qed

declare unguarded_partition.simps [simp del]

definition unguarded_partition_pivot :: "ColorSteps \<Rightarrow> nat \<Rightarrow> nat \<Rightarrow> ColorSteps \<times> nat" where
  "unguarded_partition_pivot v first lst =
     unguarded_partition
       (move_median_to_first v first (first + 1) (first + (lst - first) div 2) (lst - 1))
       (first + 1) lst first"

text \<open>
  The introsort loop handles the right part of a partition by a call of its own and the
  left part by its next iteration; both get the depth limit less one.
\<close>

function introsort_loop :: "ColorSteps \<Rightarrow> nat \<Rightarrow> nat \<Rightarrow> nat \<Rightarrow> ColorSteps" where
  "introsort_loop v first lst depth_limit =
     (if 16 < lst - first then
        (if depth_limit = 0 then partial_sort v first lst lst
         else
           (let (v', cut) = unguarded_partition_pivot v first lst
            in introsort_loop (introsort_loop v' cut lst (depth_limit - 1))
                 first cut (depth_limit - 1)))
      else v)"
  by pat_completeness auto
termination
  by (relation "measure (\<lambda>(v, first, lst, depth_limit). depth_limit)") auto

declare introsort_loop.simps [simp del]

definition std_sort :: "ColorSteps \<Rightarrow> nat \<Rightarrow> nat \<Rightarrow> ColorSteps" where
  "std_sort v first lst =
     (if first \<noteq> lst
      then final_insertion_sort (introsort_loop v first lst (std_lg (lst - first) * 2))
             first lst
      else v)"

definition libstdcxx_sort :: "ColorSteps \<Rightarrow> ColorSteps" where
  "libstdcxx_sort xs = std_sort xs 0 (length xs)"




section \<open>The loop computes the filter\<close>

lemma compact_loop_stop:
  "\<not> nxt < length v \<Longrightarrow> compact_loop eps st v cur nxt b = (v, cur, b)"
  by (subst compact_loop.simps) simp

lemma compact_loop_skip:
  "nxt < length v \<Longrightarrow> skips eps (getOffset (v ! cur)) (getOffset (v ! nxt)) \<Longrightarrow>
     compact_loop eps st v cur nxt b = compact_loop eps st v cur (Suc nxt) b"
  by (subst compact_loop.simps) (auto simp: skips_def Let_def)

lemma compact_loop_keep:
  "nxt < length v \<Longrightarrow> \<not> skips eps (getOffset (v ! cur)) (getOffset (v ! nxt)) \<Longrightarrow> cur < nxt \<Longrightarrow>
     compact_loop eps st v cur nxt b =
       compact_loop eps st (v[Suc cur := v ! nxt]) (Suc cur) (Suc nxt) (b \<and> getColor (v ! nxt) = st)"
  by (subst compact_loop.simps) (auto simp: skips_def Let_def)

lemma survivors_Cons:
  "survivors eps c (s # ss) =
     (if skips eps c (getOffset s) then survivors eps c ss else s # survivors eps (getOffset s) ss)"
  by (simp add: skips_def)

lemma compact_loop_survivors_aux:
  "n = length v - nxt \<Longrightarrow> cur < nxt \<Longrightarrow> nxt \<le> length v \<Longrightarrow>
   compact_loop eps st v cur nxt b =
     (fst (compact_loop eps st v cur nxt b),
      cur + length (survivors eps (getOffset (v ! cur)) (drop nxt v)),
      b \<and> (\<forall>s \<in> set (survivors eps (getOffset (v ! cur)) (drop nxt v)). getColor s = st))
   \<and> length (fst (compact_loop eps st v cur nxt b)) = length v
   \<and> take (Suc cur + length (survivors eps (getOffset (v ! cur)) (drop nxt v)))
        (fst (compact_loop eps st v cur nxt b))
       = take (Suc cur) v @ survivors eps (getOffset (v ! cur)) (drop nxt v)"
proof (induction n arbitrary: v cur nxt b)
  case 0
  then have "\<not> nxt < length v" by simp
  with 0 show ?case by (simp add: compact_loop_stop)
next
  case (Suc n)
  then have lt: "nxt < length v" by simp
  then have dr: "drop nxt v = v ! nxt # drop (Suc nxt) v"
    by (simp add: Cons_nth_drop_Suc)
  show ?case
  proof (cases "skips eps (getOffset (v ! cur)) (getOffset (v ! nxt))")
    case True
    have "n = length v - Suc nxt" "cur < Suc nxt" "Suc nxt \<le> length v"
      using Suc.prems lt by simp_all
    from Suc.IH[OF this, of b] show ?thesis
      using True by (simp add: compact_loop_skip[OF lt True] dr survivors_Cons del: survivors.simps(2))
  next
    case False
    let ?w = "v[Suc cur := v ! nxt]"
    have n: "n = length ?w - Suc nxt" "Suc cur < Suc nxt" "Suc nxt \<le> length ?w"
      using Suc.prems lt by simp_all
    have wc: "?w ! Suc cur = v ! nxt"
      using lt Suc.prems(2) by simp
    have dw: "drop (Suc nxt) ?w = drop (Suc nxt) v"
      using Suc.prems(2) by simp
    have tw: "take (Suc (Suc cur)) ?w = take (Suc cur) v @ [v ! nxt]"
      using lt Suc.prems(2) by (simp add: take_Suc_conv_app_nth)
    from Suc.IH[OF n, of "b \<and> getColor (v ! nxt) = st"] show ?thesis
      using False
      by (simp add: compact_loop_keep[OF lt False Suc.prems(2)] dr survivors_Cons wc dw tw del: survivors.simps(2))
  qed
qed

lemma compact_loop_initial:
  "\<exists>v3. compact_loop eps st (ColorStep 0 st # xs) 0 1 b =
            (v3, length (survivors eps 0 xs),
             b \<and> (\<forall>s \<in> set (survivors eps 0 xs). getColor s = st))
          \<and> length v3 = Suc (length xs)
          \<and> take (Suc (length (survivors eps 0 xs))) v3 = ColorStep 0 st # survivors eps 0 xs"
  using compact_loop_survivors_aux[OF refl, of 0 1 "ColorStep 0 st # xs" eps st b]
  by (intro exI[of _ "fst (compact_loop eps st (ColorStep 0 st # xs) 0 1 b)"]) simp

lemma survivors_length_le: "length (survivors eps c xs) \<le> length xs"
  by (induction xs arbitrary: c) (auto simp: le_SucI)

lemma ctor_maColorSteps_raw:
  assumes "cs \<noteq> []"
  shows "ctor_maColorSteps srt eps st en (Some cs) =
     (if st = en \<and> (\<forall>s \<in> set (survivors eps 0 (srt cs)). getColor s = st)
      then [ColorStep 0 st]
      else ColorStep 0 st # survivors eps 0 (srt cs) @ [ColorStep 1 en])"
proof -
  let ?k = "survivors eps 0 (srt cs)"
  obtain v3 where
    loop: "compact_loop eps st (ColorStep 0 st # srt cs) 0 1 (st = en) =
            (v3, length ?k, st = en \<and> (\<forall>s \<in> set ?k. getColor s = st))"
    and len: "length v3 = Suc (length (srt cs))"
    and tk: "take (Suc (length ?k)) v3 = ColorStep 0 st # ?k"
    using compact_loop_initial[of eps st "srt cs" "st = en"] by blast
  have t1: "take (Suc 0) v3 = [ColorStep 0 st]"
  proof -
    have "take (Suc 0) (take (Suc (length ?k)) v3) = take (Suc 0) v3"
      by (simp add: min_def)
    then show ?thesis by (simp add: tk)
  qed
  have kl: "length ?k \<le> length (srt cs)"
    by (rule survivors_length_le)
  show ?thesis
  proof (cases "st = en \<and> (\<forall>s \<in> set ?k. getColor s = st)")
    case True
    then show ?thesis
      using assms loop len t1 by (simp add: ctor_maColorSteps_def resize_def)
  next
    case False
    then have ne: "?k \<noteq> [] \<or> st \<noteq> en" by auto
    have rs: "(if Suc (length ?k) \<noteq> length v3 then resize (Suc (length ?k)) v3 else v3)
                = ColorStep 0 st # ?k"
      using tk len kl by (auto simp: resize_def)
    show ?thesis
      using assms loop False ne rs by (auto simp: ctor_maColorSteps_def)
  qed
qed

lemma ctor_maColorSteps_no_raw:
  assumes "p = None \<or> p = Some []"
  shows "ctor_maColorSteps srt eps st en p =
     (if st \<noteq> en then [ColorStep 0 st, ColorStep 1 en] else [ColorStep 0 st])"
  using assms by (auto simp: ctor_maColorSteps_def)

section \<open>Properties of the filter\<close>

lemma survivors_range:
  "s \<in> set (survivors eps c xs) \<Longrightarrow>
     \<not> fTools_lessOrEqual eps (getOffset s) 0 \<and> \<not> fTools_moreOrEqual eps (getOffset s) 1"
  by (induction xs arbitrary: c) (auto split: if_splits)

lemma survivors_mset: "mset (survivors eps c xs) \<subseteq># mset xs"
proof (induction xs arbitrary: c)
  case Nil
  show ?case by simp
next
  case (Cons x xs)
  show ?case
  proof (cases "skips eps c (getOffset x)")
    case True
    have "mset (survivors eps c xs) \<subseteq># mset xs" by (rule Cons.IH)
    also have "mset xs \<subseteq># mset (x # xs)" by simp
    finally show ?thesis using True by (simp add: survivors_Cons del: survivors.simps(2))
  next
    case False
    then show ?thesis
      using Cons.IH[of "getOffset x"] by (simp add: survivors_Cons del: survivors.simps(2))
  qed
qed

lemma survivors_gap:
  assumes "sorted (map getOffset xs)" and "0 \<le> eps"
    and "\<forall>x \<in> set xs. c \<le> getOffset x \<or> fTools_lessOrEqual eps (getOffset x) 0"
  shows "sorted_wrt (\<lambda>a b. getOffset a + eps < getOffset b) (survivors eps c xs)
         \<and> (\<forall>s \<in> set (survivors eps c xs). c + eps < getOffset s)"
  using assms
proof (induction xs arbitrary: c)
  case Nil
  show ?case by simp
next
  case (Cons x xs)
  have srt: "sorted (map getOffset xs)" and le: "\<forall>y \<in> set xs. getOffset x \<le> getOffset y"
    using Cons.prems(1) by auto
  show ?case
  proof (cases "skips eps c (getOffset x)")
    case True
    have "\<forall>y \<in> set xs. c \<le> getOffset y \<or> fTools_lessOrEqual eps (getOffset y) 0"
      using Cons.prems(3) by simp
    from Cons.IH[OF srt Cons.prems(2) this] show ?thesis
      using True by (simp add: survivors_Cons del: survivors.simps(2))
  next
    case False
    then have cx: "c + eps < getOffset x"
      using Cons.prems(3) by (auto simp: skips_def fTools_equal_def)
    have "\<forall>y \<in> set xs. getOffset x \<le> getOffset y \<or> fTools_lessOrEqual eps (getOffset y) 0"
      using le by simp
    from Cons.IH[OF srt Cons.prems(2) this]
    have ih: "sorted_wrt (\<lambda>a b. getOffset a + eps < getOffset b) (survivors eps (getOffset x) xs)"
      "\<forall>s \<in> set (survivors eps (getOffset x) xs). getOffset x + eps < getOffset s"
      by simp_all
    have "\<forall>s \<in> set (survivors eps (getOffset x) xs). c + eps < getOffset s"
      using ih(2) cx Cons.prems(2) by fastforce
    then show ?thesis
      using False ih cx by (simp add: survivors_Cons del: survivors.simps(2))
  qed
qed



lemma std_sort_post_stable_sort: "std_sort_post stable_sort"
  by (simp add: std_sort_post_def stable_sort_def)


lemma interior_cases:
  "interior (ctor_maColorSteps srt eps st en p) =
     (if p \<noteq> None \<and> the p \<noteq> []
         \<and> \<not> (st = en \<and> (\<forall>s \<in> set (survivors eps 0 (srt (the p))). getColor s = st))
      then survivors eps 0 (srt (the p)) else [])"
proof (cases "p = None \<or> p = Some []")
  case True
  then show ?thesis
    by (auto simp: ctor_maColorSteps_no_raw[OF True] interior_def)
next
  case False
  then obtain cs where p: "p = Some cs" "cs \<noteq> []" by auto
  show ?thesis
    unfolding p using p(2) by (simp add: ctor_maColorSteps_raw[OF p(2)] interior_def butlast_append)
qed

section \<open>Shape of the canonical sequence\<close>

lemma ctor_cases:
  "ctor_maColorSteps srt eps st en p = [ColorStep 0 st]
   \<or> ctor_maColorSteps srt eps st en p =
       ColorStep 0 st # interior (ctor_maColorSteps srt eps st en p) @ [ColorStep 1 en]"
proof (cases "p = None \<or> p = Some []")
  case True
  then show ?thesis
    by (auto simp: ctor_maColorSteps_no_raw[OF True] interior_def)
next
  case False
  then obtain cs where p: "p = Some cs" "cs \<noteq> []" by auto
  show ?thesis
    unfolding p by (simp add: ctor_maColorSteps_raw[OF p(2)] interior_def butlast_append)
qed

lemma interior_subset_survivors:
  "s \<in> set (interior (ctor_maColorSteps srt eps st en p)) \<Longrightarrow>
     p \<noteq> None \<and> s \<in> set (survivors eps 0 (srt (the p)))"
  by (simp add: interior_cases split: if_splits)

lemma gap_start: "\<forall>x \<in> set xs. (0::real) \<le> getOffset x \<or> fTools_lessOrEqual eps (getOffset x) 0"
  by (auto simp: fTools_lessOrEqual_def)

lemma interior_gap:
  assumes "std_sort_post srt" and "0 \<le> eps"
  shows "sorted_wrt (\<lambda>a b. getOffset a + eps < getOffset b)
           (interior (ctor_maColorSteps srt eps st en p))
         \<and> (\<forall>s \<in> set (interior (ctor_maColorSteps srt eps st en p)).
               eps < getOffset s \<and> getOffset s + eps < 1)"
proof -
  let ?k = "survivors eps 0 (srt (the p))"
  have "sorted (map getOffset (srt (the p)))"
    using assms(1) by (simp add: std_sort_post_def)
  from survivors_gap[OF this assms(2) gap_start]
  have g: "sorted_wrt (\<lambda>a b. getOffset a + eps < getOffset b) ?k"
    "\<forall>s \<in> set ?k. eps < getOffset s" by simp_all
  have "\<forall>s \<in> set ?k. getOffset s + eps < 1"
    using survivors_range[of _ eps 0 "srt (the p)"]
    by (fastforce simp: fTools_moreOrEqual_def fTools_equal_def)
  with g show ?thesis
    by (simp add: interior_cases)
qed

lemma example_with_boundary_claims:
  "ctor_maColorSteps stable_sort (1 / 1000) red blue
     (Some [ColorStep 1 yellow, ColorStep (1 / 2) green, ColorStep 0 green])
   = [ColorStep 0 red, ColorStep (1 / 2) green, ColorStep 1 blue]"
  by (simp add: ctor_maColorSteps_raw stable_sort_def fTools_lessOrEqual_def
      fTools_moreOrEqual_def fTools_equal_def red_def green_def blue_def yellow_def)

lemma std_sort_post_single:
  assumes "std_sort_post srt"
  shows "srt [x] = [x]"
proof -
  have "mset (srt [x]) = mset [x]"
    using assms unfolding std_sort_post_def by blast
  then show ?thesis by simp
qed


lemma end_stop_no_raw:
  assumes "pColorSteps = None \<or> pColorSteps = Some []"
  shows "ctor_maColorSteps srt eps rStartColor rEndColor pColorSteps
        = ColorStep 0 rStartColor
            # (if rEndColor \<noteq> rStartColor then [ColorStep 1 rEndColor] else [])"
  unfolding ctor_maColorSteps_no_raw[OF assms] by simp

lemma end_stop_raw:
  assumes some: "pColorSteps \<noteq> None" and ne: "rawStops pColorSteps \<noteq> []"
    and nf: "\<not> (rStartColor = rEndColor
               \<and> (\<forall>s \<in> set (survivors eps 0 (srt (rawStops pColorSteps))).
                     getColor s = rStartColor))"
  shows "ctor_maColorSteps srt eps rStartColor rEndColor pColorSteps
        = ColorStep 0 rStartColor # survivors eps 0 (srt (rawStops pColorSteps))
            @ (if survivors eps 0 (srt (rawStops pColorSteps)) \<noteq> [] \<or> rEndColor \<noteq> rStartColor
               then [ColorStep 1 rEndColor] else [])"
proof -
  from some obtain cs where p: "pColorSteps = Some cs"
    by blast
  have rs: "rawStops pColorSteps = cs"
    by (simp add: p rawStops_def)
  have cs: "cs \<noteq> []"
    using ne rs by simp
  have app: "survivors eps 0 (srt cs) \<noteq> [] \<or> rEndColor \<noteq> rStartColor"
  proof (rule ccontr)
    assume "\<not> (survivors eps 0 (srt cs) \<noteq> [] \<or> rEndColor \<noteq> rStartColor)"
    then have "survivors eps 0 (srt cs) = []" "rStartColor = rEndColor"
      by simp_all
    then show False using nf rs by simp
  qed
  have "ctor_maColorSteps srt eps rStartColor rEndColor (Some cs)
          = ColorStep 0 rStartColor # survivors eps 0 (srt cs) @ [ColorStep 1 rEndColor]"
    unfolding ctor_maColorSteps_raw[OF cs] using nf[unfolded rs] by (rule if_not_P)
  then show ?thesis
    using app by (simp add: p rawStops_def)
qed

lemma end_stop_example:
  assumes "std_sort_post srt" and "eps < 1 / 2"
  shows "ctor_maColorSteps srt eps red red (Some [ColorStep (1 / 2) blue])
        = [ColorStep 0 red, ColorStep (1 / 2) blue, ColorStep 1 red]"
proof -
  have s1: "srt [ColorStep (1 / 2) blue] = [ColorStep (1 / 2) blue]"
    using assms(1) by (rule std_sort_post_single)
  have k: "survivors eps 0 [ColorStep (1 / 2) blue] = [ColorStep (1 / 2) blue]"
    using assms(2) by (simp add: fTools_lessOrEqual_def fTools_moreOrEqual_def fTools_equal_def)
  have rb: "blue \<noteq> red"
    by (simp add: red_def blue_def)
  have ne: "[ColorStep (1 / 2) blue] \<noteq> []"
    by simp
  show ?thesis
    unfolding ctor_maColorSteps_raw[OF ne] s1 k using rb by simp
qed

lemma ctor_members:
  assumes "s \<in> set (ctor_maColorSteps srt eps st en p)"
  shows "s = ColorStep 0 st \<or> s \<in> set (interior (ctor_maColorSteps srt eps st en p))
         \<or> s = ColorStep 1 en"
proof -
  let ?r = "ctor_maColorSteps srt eps st en p"
  consider "?r = [ColorStep 0 st]" | "?r = ColorStep 0 st # interior ?r @ [ColorStep 1 en]"
    using ctor_cases by blast
  then show ?thesis
  proof cases
    case 1
    with assms show ?thesis by simp
  next
    case 2
    have "s \<in> set (ColorStep 0 st # interior ?r @ [ColorStep 1 en])"
      using assms 2 by metis
    then show ?thesis by auto
  qed
qed

lemma interior_range:
  assumes "s \<in> set (interior (ctor_maColorSteps srt eps st en p))"
  shows "\<not> fTools_lessOrEqual eps (getOffset s) 0 \<and> \<not> fTools_moreOrEqual eps (getOffset s) 1"
  using interior_subset_survivors[OF assms] survivors_range by blast

lemma example_out_of_range:
  "ctor_maColorSteps stable_sort (1 / 1000) red blue
     (Some [ColorStep (- 1 / 5) green, ColorStep (3 / 10) green,
            ColorStep (3 / 10) green, ColorStep (6 / 5) yellow])
   = [ColorStep 0 red, ColorStep (3 / 10) green, ColorStep 1 blue]"
  by (simp add: ctor_maColorSteps_raw stable_sort_def fTools_lessOrEqual_def
      fTools_moreOrEqual_def fTools_equal_def red_def green_def blue_def yellow_def)

lemma interior_mset_raw:
  assumes "std_sort_post srt"
  shows "mset (interior (ctor_maColorSteps srt eps st en p)) \<subseteq># mset (rawStops p)"
proof (cases "interior (ctor_maColorSteps srt eps st en p) = []")
  case True
  then show ?thesis by simp
next
  case False
  then have some: "p \<noteq> None"
    and eq: "interior (ctor_maColorSteps srt eps st en p) = survivors eps 0 (srt (the p))"
    by (simp_all add: interior_cases split: if_splits)
  then obtain cs where p: "p = Some cs" by blast
  have "mset (survivors eps 0 (srt cs)) \<subseteq># mset (srt cs)"
    by (rule survivors_mset)
  also have "mset (srt cs) = mset cs"
    using assms unfolding std_sort_post_def by blast
  finally show ?thesis
    using eq by (simp add: p rawStops_def)
qed




section \<open>The library's sort on seventeen tied stops\<close>








lemma two_ties_libstdcxx_sort:
  "libstdcxx_sort [ColorStep (3 / 10) green, ColorStep (3 / 10) yellow]
     = [ColorStep (3 / 10) green, ColorStep (3 / 10) yellow]"
  by (simp add: libstdcxx_sort_def std_sort_def final_insertion_sort_def insertion_sort_def
      unguarded_linear_insert_def ColorStep_less_def introsort_loop.simps
      insertion_sort_loop.simps linear_insert_loop.simps)

section \<open>Claims about the canonical stop sequence\<close>

text \<open>
  C1. For every start colour, end colour and raw-stop sequence, the canonical sequence the
  constructor produces is strictly ascending by offset, and no two of its stops are
  within epsilon of each other; this includes the appended end stop at 1.0 against the
  last kept interior stop. The sort is any function meeting the contract of
  \<^verbatim>\<open>std::sort\<close>, and the epsilon is any small tolerance: at least 0 and below 1.
\<close>

theorem canonical_strictly_ascending:
  assumes "std_sort_post srt" and "0 \<le> eps" and "eps < 1"
  shows "sorted_wrt
           (\<lambda>a b. getOffset a < getOffset b \<and> \<not> fTools_equal eps (getOffset a) (getOffset b))
           (ctor_maColorSteps srt eps rStartColor rEndColor pColorSteps)"
proof -
  let ?r = "ctor_maColorSteps srt eps rStartColor rEndColor pColorSteps"
  note g = interior_gap[OF assms(1,2), of rStartColor rEndColor pColorSteps]
  have "sorted_wrt (\<lambda>a b. getOffset a + eps < getOffset b) ?r"
  proof -
    consider "?r = [ColorStep 0 rStartColor]"
      | "?r = ColorStep 0 rStartColor # interior ?r @ [ColorStep 1 rEndColor]"
      using ctor_cases by blast
    then show ?thesis
    proof cases
      case 1
      then show ?thesis by simp
    next
      case 2
      have "sorted_wrt (\<lambda>a b. getOffset a + eps < getOffset b)
              (ColorStep 0 rStartColor # interior ?r @ [ColorStep 1 rEndColor])"
        using g assms(3) by (simp add: sorted_wrt_append)
      with 2 show ?thesis by simp
    qed
  qed
  then show ?thesis
    by (rule sorted_wrt_mono_rel[rotated]) (use assms(2) in \<open>auto simp: fTools_equal_def\<close>)
qed

theorem canonical_strictly_ascending_witness:
  "std_sort_post stable_sort \<and> (0::real) \<le> 1 / 1000 \<and> (1 / 1000 :: real) < 1
   \<and> sorted_wrt
       (\<lambda>a b. getOffset a < getOffset b \<and> \<not> fTools_equal (1 / 1000) (getOffset a) (getOffset b))
       (ctor_maColorSteps stable_sort (1 / 1000) red blue
          (Some [ColorStep (- 1 / 5) green, ColorStep (3 / 10) green,
                 ColorStep (3 / 10) green, ColorStep (6 / 5) yellow]))"
  using canonical_strictly_ascending[OF std_sort_post_stable_sort, of "1 / 1000" red blue
      "Some [ColorStep (- 1 / 5) green, ColorStep (3 / 10) green,
             ColorStep (3 / 10) green, ColorStep (6 / 5) yellow]"]
    std_sort_post_stable_sort
  by simp

text \<open>
  C2. For every start colour, end colour and raw-stop sequence, and whatever the sort and
  the epsilon, the canonical sequence is non-empty and its first stop has offset exactly
  0.0 and the supplied start colour: no raw stop, also one with offset 0 or a negative
  offset, displaces or recolours it.
\<close>

theorem first_stop_is_start:
  "ctor_maColorSteps srt eps rStartColor rEndColor pColorSteps \<noteq> []
   \<and> hd (ctor_maColorSteps srt eps rStartColor rEndColor pColorSteps) = ColorStep 0 rStartColor"
proof -
  let ?r = "ctor_maColorSteps srt eps rStartColor rEndColor pColorSteps"
  consider "?r = [ColorStep 0 rStartColor]"
    | "?r = ColorStep 0 rStartColor # interior ?r @ [ColorStep 1 rEndColor]"
    using ctor_cases by blast
  then show ?thesis
  proof cases
    case 1
    then show ?thesis by simp
  next
    case 2
    have "hd (ColorStep 0 rStartColor # interior ?r @ [ColorStep 1 rEndColor])
            = ColorStep 0 rStartColor"
      by simp
    with 2 show ?thesis by (metis list.distinct(1))
  qed
qed

theorem first_stop_is_start_witness:
  "ctor_maColorSteps stable_sort (1 / 1000) red blue
     (Some [ColorStep 0 green, ColorStep (- 1 / 5) yellow]) \<noteq> []
   \<and> hd (ctor_maColorSteps stable_sort (1 / 1000) red blue
           (Some [ColorStep 0 green, ColorStep (- 1 / 5) yellow])) = ColorStep 0 red"
  using first_stop_is_start[of stable_sort "1 / 1000" red blue
      "Some [ColorStep 0 green, ColorStep (- 1 / 5) yellow]"]
  by simp

text \<open>
  C3. Whenever the canonical sequence has more than one stop, its last stop has offset
  exactly 1.0 and the supplied end colour. No raw stop supplies it: with an epsilon below
  1, every stop before the last has an offset that is not at or above 1 within epsilon.
\<close>

theorem last_stop_is_end:
  assumes "1 < length (ctor_maColorSteps srt eps rStartColor rEndColor pColorSteps)"
  shows "last (ctor_maColorSteps srt eps rStartColor rEndColor pColorSteps)
           = ColorStep 1 rEndColor
         \<and> (eps < 1 \<longrightarrow>
              (\<forall>s \<in> set (butlast (ctor_maColorSteps srt eps rStartColor rEndColor pColorSteps)).
                 \<not> fTools_moreOrEqual eps (getOffset s) 1))"
proof -
  let ?r = "ctor_maColorSteps srt eps rStartColor rEndColor pColorSteps"
  have "?r \<noteq> [ColorStep 0 rStartColor]"
    using assms by auto
  then have shape: "?r = ColorStep 0 rStartColor # interior ?r @ [ColorStep 1 rEndColor]"
    using ctor_cases by blast
  have l: "last (ColorStep 0 rStartColor # interior ?r @ [ColorStep 1 rEndColor])
             = ColorStep 1 rEndColor"
    by simp
  have b: "butlast (ColorStep 0 rStartColor # interior ?r @ [ColorStep 1 rEndColor])
             = ColorStep 0 rStartColor # interior ?r"
    by (simp add: butlast_append)
  have i: "\<forall>s \<in> set (interior ?r). \<not> fTools_moreOrEqual eps (getOffset s) 1"
    using interior_subset_survivors survivors_range by blast
  have "eps < 1 \<longrightarrow> (\<forall>s \<in> set (ColorStep 0 rStartColor # interior ?r).
                        \<not> fTools_moreOrEqual eps (getOffset s) 1)"
    using i by (simp add: fTools_moreOrEqual_def fTools_equal_def)
  then show ?thesis
    using shape l b by metis
qed

theorem last_stop_is_end_witness:
  "1 < length (ctor_maColorSteps stable_sort (1 / 1000) red blue
                 (Some [ColorStep 1 yellow, ColorStep (1 / 2) green, ColorStep 0 green]))
   \<and> last (ctor_maColorSteps stable_sort (1 / 1000) red blue
             (Some [ColorStep 1 yellow, ColorStep (1 / 2) green, ColorStep 0 green]))
       = ColorStep 1 blue
   \<and> (1 / 1000 :: real) < 1
   \<and> list_all (\<lambda>s. \<not> fTools_moreOrEqual (1 / 1000) (getOffset s) 1)
        (butlast (ctor_maColorSteps stable_sort (1 / 1000) red blue
                 (Some [ColorStep 1 yellow, ColorStep (1 / 2) green, ColorStep 0 green])))"
proof -
  have h: "1 < length (ctor_maColorSteps stable_sort (1 / 1000) red blue
                 (Some [ColorStep 1 yellow, ColorStep (1 / 2) green, ColorStep 0 green]))"
    by (simp add: example_with_boundary_claims)
  have e: "(1 / 1000 :: real) < 1"
    by simp
  show ?thesis
    unfolding list_all_iff using h e last_stop_is_end[OF h] by blast
qed

text \<open>
  C4. If the start colour equals the end colour and every raw stop that survives the
  range and duplicate filtering has the start colour, the canonical sequence is exactly
  the one stop (0.0, start colour). Consequently a canonical sequence whose stops all
  share one colour never has more than one stop.
\<close>

theorem flat_collapse:
  "(rStartColor = rEndColor
      \<and> (\<forall>s \<in> set (survivors eps 0 (srt (rawStops pColorSteps))). getColor s = rStartColor)
     \<longrightarrow> ctor_maColorSteps srt eps rStartColor rEndColor pColorSteps = [ColorStep 0 rStartColor])
   \<and> ((\<forall>s \<in> set (ctor_maColorSteps srt eps rStartColor rEndColor pColorSteps). getColor s = c)
     \<longrightarrow> length (ctor_maColorSteps srt eps rStartColor rEndColor pColorSteps) \<le> 1)"
proof (cases "pColorSteps = None \<or> pColorSteps = Some []")
  case True
  have r: "ctor_maColorSteps srt eps rStartColor rEndColor pColorSteps =
     (if rStartColor \<noteq> rEndColor then [ColorStep 0 rStartColor, ColorStep 1 rEndColor]
      else [ColorStep 0 rStartColor])"
    by (rule ctor_maColorSteps_no_raw[OF True])
  show ?thesis
    unfolding r by auto
next
  case False
  then obtain cs where p: "pColorSteps = Some cs" "cs \<noteq> []" by auto
  let ?k = "survivors eps 0 (srt cs)"
  have r: "ctor_maColorSteps srt eps rStartColor rEndColor (Some cs) =
     (if rStartColor = rEndColor \<and> (\<forall>s \<in> set ?k. getColor s = rStartColor)
      then [ColorStep 0 rStartColor]
      else ColorStep 0 rStartColor # ?k @ [ColorStep 1 rEndColor])"
    by (rule ctor_maColorSteps_raw[OF p(2)])
  have rs: "rawStops (Some cs) = cs"
    by (simp add: rawStops_def)
  let ?flat = "rStartColor = rEndColor \<and> (\<forall>s \<in> set ?k. getColor s = rStartColor)"
  have one: "?flat \<longrightarrow>
      ctor_maColorSteps srt eps rStartColor rEndColor (Some cs) = [ColorStep 0 rStartColor]"
    unfolding r by simp
  have two: "length (ctor_maColorSteps srt eps rStartColor rEndColor (Some cs)) \<le> 1"
    if all: "\<forall>s \<in> set (ctor_maColorSteps srt eps rStartColor rEndColor (Some cs)). getColor s = c"
  proof (cases ?flat)
    case True
    then show ?thesis unfolding r by simp
  next
    case False
    then have shape: "ctor_maColorSteps srt eps rStartColor rEndColor (Some cs)
                        = ColorStep 0 rStartColor # ?k @ [ColorStep 1 rEndColor]"
      unfolding r by simp
    have "\<forall>s \<in> set (ColorStep 0 rStartColor # ?k @ [ColorStep 1 rEndColor]). getColor s = c"
      using all unfolding shape .
    then have "rStartColor = c" "rEndColor = c" "\<forall>s \<in> set ?k. getColor s = c"
      by simp_all
    with False show ?thesis by blast
  qed
  show ?thesis
    unfolding p rs using one two by blast
qed

theorem flat_collapse_witness:
  "red = red
   \<and> list_all (\<lambda>s. getColor s = red)
        (survivors (1 / 1000) 0
           (stable_sort (rawStops (Some [ColorStep (1 / 2) red, ColorStep 1 blue,
                                         ColorStep 0 green]))))
   \<and> ctor_maColorSteps stable_sort (1 / 1000) red red
        (Some [ColorStep (1 / 2) red, ColorStep 1 blue, ColorStep 0 green])
      = [ColorStep 0 red]
   \<and> list_all (\<lambda>s. getColor s = red)
        (ctor_maColorSteps stable_sort (1 / 1000) red red
           (Some [ColorStep (1 / 2) red, ColorStep 1 blue, ColorStep 0 green]))
   \<and> length (ctor_maColorSteps stable_sort (1 / 1000) red red
        (Some [ColorStep (1 / 2) red, ColorStep 1 blue, ColorStep 0 green])) \<le> 1"
proof -
  have h: "\<forall>s \<in> set (survivors (1 / 1000) 0
                   (stable_sort (rawStops (Some [ColorStep (1 / 2) red, ColorStep 1 blue,
                                                 ColorStep 0 green])))).
          getColor s = red"
    by (simp add: rawStops_def stable_sort_def fTools_lessOrEqual_def
        fTools_moreOrEqual_def fTools_equal_def)
  note t = flat_collapse[of red red "1 / 1000" stable_sort
        "Some [ColorStep (1 / 2) red, ColorStep 1 blue, ColorStep 0 green]" red]
  have r: "ctor_maColorSteps stable_sort (1 / 1000) red red
        (Some [ColorStep (1 / 2) red, ColorStep 1 blue, ColorStep 0 green])
      = [ColorStep 0 red]"
    using h t by blast
  have a: "\<forall>s \<in> set (ctor_maColorSteps stable_sort (1 / 1000) red red
           (Some [ColorStep (1 / 2) red, ColorStep 1 blue, ColorStep 0 green])).
          getColor s = red"
    unfolding r by simp
  show ?thesis
    unfolding list_all_iff using h r a t by blast
qed

text \<open>
  C5. The end stop (1.0, end colour) is appended exactly as follows. With no raw stops
  (a null pointer or an empty vector) it is appended iff the end colour differs from the
  start colour. With raw stops and no flat collapse, the result is the start stop, the
  surviving stops, and the end stop iff a stop survived or the end colour differs from
  the start colour. In particular start = red, end = red, raw stops [(0.5, blue)] gives
  [(0.0, red), (0.5, blue), (1.0, red)], for every sort meeting the contract and every
  epsilon below 0.5.
\<close>

theorem end_stop_appended_iff:
  "(pColorSteps = None \<or> pColorSteps = Some [] \<longrightarrow>
      ctor_maColorSteps srt eps rStartColor rEndColor pColorSteps
        = ColorStep 0 rStartColor
            # (if rEndColor \<noteq> rStartColor then [ColorStep 1 rEndColor] else []))
   \<and> (pColorSteps \<noteq> None \<and> rawStops pColorSteps \<noteq> []
        \<and> \<not> (rStartColor = rEndColor
               \<and> (\<forall>s \<in> set (survivors eps 0 (srt (rawStops pColorSteps))).
                     getColor s = rStartColor)) \<longrightarrow>
      ctor_maColorSteps srt eps rStartColor rEndColor pColorSteps
        = ColorStep 0 rStartColor # survivors eps 0 (srt (rawStops pColorSteps))
            @ (if survivors eps 0 (srt (rawStops pColorSteps)) \<noteq> [] \<or> rEndColor \<noteq> rStartColor
               then [ColorStep 1 rEndColor] else []))
   \<and> (std_sort_post srt \<and> eps < 1 / 2 \<longrightarrow>
      ctor_maColorSteps srt eps red red (Some [ColorStep (1 / 2) blue])
        = [ColorStep 0 red, ColorStep (1 / 2) blue, ColorStep 1 red])"
  using end_stop_no_raw[of pColorSteps srt eps rStartColor rEndColor]
    end_stop_raw[of pColorSteps rStartColor rEndColor eps srt]
    end_stop_example[of srt eps]
  by blast

theorem end_stop_appended_iff_witness:
  "(Some [ColorStep (1 / 2) blue] \<noteq> None \<and> rawStops (Some [ColorStep (1 / 2) blue]) \<noteq> []
      \<and> \<not> (red = red
             \<and> (\<forall>s \<in> set (survivors (1 / 1000) 0
                            (stable_sort (rawStops (Some [ColorStep (1 / 2) blue])))).
                   getColor s = red)))
   \<and> (std_sort_post stable_sort \<and> (1 / 1000 :: real) < 1 / 2)
   \<and> ctor_maColorSteps stable_sort (1 / 1000) red red (Some [ColorStep (1 / 2) blue])
        = [ColorStep 0 red, ColorStep (1 / 2) blue, ColorStep 1 red]"
proof -
  have h1: "Some [ColorStep (1 / 2) blue] \<noteq> None \<and> rawStops (Some [ColorStep (1 / 2) blue]) \<noteq> []
      \<and> \<not> (red = red
             \<and> (\<forall>s \<in> set (survivors (1 / 1000) 0
                            (stable_sort (rawStops (Some [ColorStep (1 / 2) blue])))).
                   getColor s = red))"
    by (simp add: rawStops_def stable_sort_def fTools_lessOrEqual_def fTools_moreOrEqual_def
        fTools_equal_def red_def blue_def)
  have h2: "std_sort_post stable_sort \<and> (1 / 1000 :: real) < 1 / 2"
    by (simp add: std_sort_post_stable_sort)
  show ?thesis
    using h1 h2
      end_stop_appended_iff[of "Some [ColorStep (1 / 2) blue]" stable_sort "1 / 1000" red red]
    by blast
qed

text \<open>
  C6. For every input, no raw stop whose offset is at most 0 or at least 1, within
  epsilon, is taken into the canonical sequence: no interior stop has such an offset, and
  with an epsilon below 1 the only stop of the sequence at or below 0 is the explicit
  start stop and the only one at or above 1 is the explicit end stop.
\<close>

theorem boundary_stops_discarded:
  "(\<forall>s \<in> set (interior (ctor_maColorSteps srt eps rStartColor rEndColor pColorSteps)).
       \<not> fTools_lessOrEqual eps (getOffset s) 0 \<and> \<not> fTools_moreOrEqual eps (getOffset s) 1)
   \<and> (eps < 1 \<longrightarrow>
        (\<forall>s \<in> set (ctor_maColorSteps srt eps rStartColor rEndColor pColorSteps).
           (fTools_lessOrEqual eps (getOffset s) 0 \<longrightarrow> s = ColorStep 0 rStartColor)
           \<and> (fTools_moreOrEqual eps (getOffset s) 1 \<longrightarrow> s = ColorStep 1 rEndColor)))"
proof (intro conjI impI ballI)
  fix s
  assume "s \<in> set (interior (ctor_maColorSteps srt eps rStartColor rEndColor pColorSteps))"
  then show "\<not> fTools_lessOrEqual eps (getOffset s) 0" "\<not> fTools_moreOrEqual eps (getOffset s) 1"
    using interior_range by blast+
next
  fix s
  assume e: "eps < 1"
    and m: "s \<in> set (ctor_maColorSteps srt eps rStartColor rEndColor pColorSteps)"
  have end_not_low: "\<not> fTools_lessOrEqual eps (getOffset (ColorStep 1 rEndColor)) 0"
    using e by (simp add: fTools_lessOrEqual_def fTools_equal_def)
  have start_not_high: "\<not> fTools_moreOrEqual eps (getOffset (ColorStep 0 rStartColor)) 1"
    using e by (simp add: fTools_moreOrEqual_def fTools_equal_def)
  note c = ctor_members[OF m] interior_range[of s srt eps rStartColor rEndColor pColorSteps]
  {
    assume "fTools_lessOrEqual eps (getOffset s) 0"
    then show "s = ColorStep 0 rStartColor"
      using c end_not_low by blast
  }
  {
    assume "fTools_moreOrEqual eps (getOffset s) 1"
    then show "s = ColorStep 1 rEndColor"
      using c start_not_high by blast
  }
qed

theorem boundary_stops_discarded_witness:
  "ColorStep (3 / 10) green
     \<in> set (interior (ctor_maColorSteps stable_sort (1 / 1000) red blue
         (Some [ColorStep (- 1 / 5) green, ColorStep (3 / 10) green,
                ColorStep (3 / 10) green, ColorStep (6 / 5) yellow])))
   \<and> (1 / 1000 :: real) < 1
   \<and> \<not> fTools_lessOrEqual (1 / 1000) (getOffset (ColorStep (3 / 10) green)) 0
   \<and> \<not> fTools_moreOrEqual (1 / 1000) (getOffset (ColorStep (3 / 10) green)) 1
   \<and> list_all
        (\<lambda>s. (fTools_lessOrEqual (1 / 1000) (getOffset s) 0 \<longrightarrow> s = ColorStep 0 red)
           \<and> (fTools_moreOrEqual (1 / 1000) (getOffset s) 1 \<longrightarrow> s = ColorStep 1 blue))
        (ctor_maColorSteps stable_sort (1 / 1000) red blue
         (Some [ColorStep (- 1 / 5) green, ColorStep (3 / 10) green,
                ColorStep (3 / 10) green, ColorStep (6 / 5) yellow]))"
proof -
  have h: "ColorStep (3 / 10) green
     \<in> set (interior (ctor_maColorSteps stable_sort (1 / 1000) red blue
         (Some [ColorStep (- 1 / 5) green, ColorStep (3 / 10) green,
                ColorStep (3 / 10) green, ColorStep (6 / 5) yellow])))"
    unfolding example_out_of_range interior_def by simp
  have e: "(1 / 1000 :: real) < 1"
    by simp
  show ?thesis
    unfolding list_all_iff
    using h e boundary_stops_discarded[of stable_sort "1 / 1000" red blue
        "Some [ColorStep (- 1 / 5) green, ColorStep (3 / 10) green,
               ColorStep (3 / 10) green, ColorStep (6 / 5) yellow]"]
    by blast
qed




text \<open>
  C10. For every start colour, end colour and raw-stop sequence, the canonical sequence
  is the start stop alone, or the start stop, interior stops and the end stop; and the
  interior stops are raw stops, taken over with offset and colour unchanged and no more
  often than they occur in the raw stops. The constructor drops and reorders raw stops
  and never invents, recolours or repositions one.
\<close>

theorem interior_stops_are_raw:
  assumes "std_sort_post srt"
  shows "(ctor_maColorSteps srt eps rStartColor rEndColor pColorSteps = [ColorStep 0 rStartColor]
          \<or> ctor_maColorSteps srt eps rStartColor rEndColor pColorSteps
               = ColorStep 0 rStartColor
                   # interior (ctor_maColorSteps srt eps rStartColor rEndColor pColorSteps)
                   @ [ColorStep 1 rEndColor])
         \<and> mset (interior (ctor_maColorSteps srt eps rStartColor rEndColor pColorSteps))
              \<subseteq># mset (rawStops pColorSteps)
         \<and> set (interior (ctor_maColorSteps srt eps rStartColor rEndColor pColorSteps))
              \<subseteq> set (rawStops pColorSteps)"
proof -
  note m = interior_mset_raw[OF assms, of eps rStartColor rEndColor pColorSteps]
  have "set (interior (ctor_maColorSteps srt eps rStartColor rEndColor pColorSteps))
              \<subseteq> set (rawStops pColorSteps)"
    using set_mset_mono[OF m] by simp
  then show ?thesis
    using m ctor_cases[of srt eps rStartColor rEndColor pColorSteps] by blast
qed

theorem interior_stops_are_raw_witness:
  "std_sort_post stable_sort
   \<and> ctor_maColorSteps stable_sort (1 / 1000) red blue
        (Some [ColorStep (7 / 10) yellow, ColorStep (- 1 / 5) green, ColorStep (3 / 10) green])
      = ColorStep 0 red
          # interior (ctor_maColorSteps stable_sort (1 / 1000) red blue
              (Some [ColorStep (7 / 10) yellow, ColorStep (- 1 / 5) green,
                     ColorStep (3 / 10) green]))
          @ [ColorStep 1 blue]
   \<and> mset (interior (ctor_maColorSteps stable_sort (1 / 1000) red blue
        (Some [ColorStep (7 / 10) yellow, ColorStep (- 1 / 5) green, ColorStep (3 / 10) green])))
       \<subseteq># mset (rawStops (Some [ColorStep (7 / 10) yellow, ColorStep (- 1 / 5) green,
                                ColorStep (3 / 10) green]))
   \<and> set (interior (ctor_maColorSteps stable_sort (1 / 1000) red blue
        (Some [ColorStep (7 / 10) yellow, ColorStep (- 1 / 5) green, ColorStep (3 / 10) green])))
       \<subseteq> set (rawStops (Some [ColorStep (7 / 10) yellow, ColorStep (- 1 / 5) green,
                              ColorStep (3 / 10) green]))"
proof -
  have two: "ctor_maColorSteps stable_sort (1 / 1000) red blue
        (Some [ColorStep (7 / 10) yellow, ColorStep (- 1 / 5) green, ColorStep (3 / 10) green])
      \<noteq> [ColorStep 0 red]"
    by (simp add: ctor_maColorSteps_raw red_def blue_def)
  show ?thesis
    using two std_sort_post_stable_sort
      interior_stops_are_raw[OF std_sort_post_stable_sort, of "1 / 1000" red blue
        "Some [ColorStep (7 / 10) yellow, ColorStep (- 1 / 5) green, ColorStep (3 / 10) green]"]
    by blast
qed

section \<open>The store: singleton and explicit handles\<close>

lemma theGlobalDefault_Some:
  "SINGLETON s = Some a \<Longrightarrow> theGlobalDefault s = (a, s)"
  by (simp add: theGlobalDefault_def)

lemma theGlobalDefault_sets:
  "SINGLETON (snd (theGlobalDefault s)) = Some (fst (theGlobalDefault s))"
  by (simp add: theGlobalDefault_def split: option.splits)

lemma theGlobalDefault_twice:
  "theGlobalDefault (snd (theGlobalDefault s)) = theGlobalDefault s"
proof -
  have "theGlobalDefault (snd (theGlobalDefault s))
          = (fst (theGlobalDefault s), snd (theGlobalDefault s))"
    by (rule theGlobalDefault_Some[OF theGlobalDefault_sets])
  then show ?thesis by simp
qed

lemma isDefault_eq:
  "isDefault h s = (mpFillGradientAttribute h = fst (theGlobalDefault s), snd (theGlobalDefault s))"
  by (simp add: isDefault_def same_object_def split_beta)

lemma default_eq:
  "FillGradientAttribute_default s
     = (FillGradientAttribute (fst (theGlobalDefault s)), snd (theGlobalDefault s))"
  by (simp add: FillGradientAttribute_default_def split_beta)

lemma equal_eq:
  "FillGradientAttribute_equal h c s =
     (if (mpFillGradientAttribute c = fst (theGlobalDefault s))
           \<noteq> (mpFillGradientAttribute h = fst (theGlobalDefault s))
      then False
      else cow_equal c h (snd (theGlobalDefault s)),
      snd (theGlobalDefault s))"
  by (simp add: FillGradientAttribute_equal_def isDefault_eq theGlobalDefault_twice Let_def)

lemma store_step_cases:
  assumes "store_step s s'"
  shows "s' = snd (theGlobalDefault s) \<or> (\<exists>x. s' = s\<lparr>heap := heap s @ [x]\<rparr>)"
  using assms
proof cases
  case step_default
  then show ?thesis by (simp add: default_eq)
next
  case (step_ctor srt eps eStyle fBorder fOffsetX fOffsetY fAngle rStartColor rEndColor pColorSteps nSteps)
  then show ?thesis by (auto simp: FillGradientAttribute_ctor_def)
next
  case (step_isDefault h)
  then show ?thesis by (simp add: isDefault_eq)
next
  case (step_equal h rCandidate)
  then show ?thesis by (simp add: equal_eq)
qed



lemma store_step_explicit:
  assumes "store_step s s'" and "explicit_handle e s"
  shows "explicit_handle e s'"
  using store_step_cases[OF assms(1)] assms(2)
  by (auto simp: explicit_handle_def theGlobalDefault_def split: option.splits)

lemma store_steps_explicit:
  assumes "store_step\<^sup>*\<^sup>* s s'" and "explicit_handle e s"
  shows "explicit_handle e s'"
  using assms by (induction rule: rtranclp_induct) (auto intro: store_step_explicit)

lemma ctor_explicit:
  assumes "store_inv s"
    and "FillGradientAttribute_ctor srt eps eStyle fBorder fOffsetX fOffsetY fAngle
           rStartColor rEndColor pColorSteps nSteps s = (e, s1)"
  shows "explicit_handle e s1"
  using assms
  by (auto simp: FillGradientAttribute_ctor_def explicit_handle_def store_inv_def
      split: option.splits)

lemma explicit_not_default:
  assumes "explicit_handle e s"
  shows "mpFillGradientAttribute e \<noteq> fst (theGlobalDefault s)"
  using assms by (auto simp: explicit_handle_def theGlobalDefault_def split: option.splits)

lemma Imp_equal_iff: "Imp_equal a b = (a = b)"
  by (cases a, cases b) (auto simp: Imp_equal_def)

lemma ctor_default_values:
  "ImpFillGradientAttribute_ctor srt eps Linear 0 0 0 0 (BColor 0 0 0) (BColor 0 0 0) None 0
     = ImpFillGradientAttribute_default"
  by (simp add: ImpFillGradientAttribute_ctor_def ImpFillGradientAttribute_default_def
      ctor_maColorSteps_def)

lemma deref_stable:
  assumes "mpFillGradientAttribute h < length (heap s)"
  shows "deref h (snd (theGlobalDefault s)) = deref h s"
  using assms by (simp add: deref_def theGlobalDefault_def nth_append split: option.splits)

lemma equal_value:
  "fst (FillGradientAttribute_equal h c s) =
     ((mpFillGradientAttribute h = fst (theGlobalDefault s)
         \<and> mpFillGradientAttribute c = fst (theGlobalDefault s))
      \<or> (mpFillGradientAttribute h \<noteq> fst (theGlobalDefault s)
         \<and> mpFillGradientAttribute c \<noteq> fst (theGlobalDefault s)
         \<and> deref h (snd (theGlobalDefault s)) = deref c (snd (theGlobalDefault s))))"
  by (auto simp: equal_eq cow_equal_def same_object_def Imp_equal_iff deref_def)

lemma deref_fields:
  "(deref h s = deref c s) =
     (getStyle h s = getStyle c s \<and> getBorder h s = getBorder c s
      \<and> getOffsetX h s = getOffsetX c s \<and> getOffsetY h s = getOffsetY c s
      \<and> getAngle h s = getAngle c s \<and> getSteps h s = getSteps c s
      \<and> getColorSteps h s = getColorSteps c s)"
  unfolding getStyle_def getBorder_def getOffsetX_def getOffsetY_def getAngle_def
    getSteps_def getColorSteps_def
  by (cases "deref h s", cases "deref c s") auto

lemma equal_fields:
  "fst (FillGradientAttribute_equal h c s) =
     (let s' = snd (FillGradientAttribute_equal h c s) in
      (fst (isDefault h s) \<and> fst (isDefault c s))
      \<or> (\<not> fst (isDefault h s) \<and> \<not> fst (isDefault c s)
         \<and> getStyle h s' = getStyle c s' \<and> getBorder h s' = getBorder c s'
         \<and> getOffsetX h s' = getOffsetX c s' \<and> getOffsetY h s' = getOffsetY c s'
         \<and> getAngle h s' = getAngle c s' \<and> getSteps h s' = getSteps c s'
         \<and> getColorSteps h s' = getColorSteps c s'))"
proof -
  have s': "snd (FillGradientAttribute_equal h c s) = snd (theGlobalDefault s)"
    by (simp add: equal_eq)
  show ?thesis
    unfolding Let_def s' deref_fields[symmetric] equal_value
    by (simp add: isDefault_eq)
qed

lemma explicit_never_equal_default:
  assumes "store_inv s"
    and "FillGradientAttribute_ctor srt eps eStyle fBorder fOffsetX fOffsetY fAngle
           rStartColor rEndColor pColorSteps nSteps s = (e, s1)"
    and "store_step\<^sup>*\<^sup>* s1 s2"
    and "fst (isDefault d s2)"
  shows "\<not> fst (isDefault e s2) \<and> \<not> fst (FillGradientAttribute_equal e d s2)
         \<and> \<not> fst (FillGradientAttribute_equal d e s2)"
proof -
  have "explicit_handle e s2"
    using store_steps_explicit[OF assms(3) ctor_explicit[OF assms(1,2)]] .
  then have e: "mpFillGradientAttribute e \<noteq> fst (theGlobalDefault s2)"
    by (rule explicit_not_default)
  have d: "mpFillGradientAttribute d = fst (theGlobalDefault s2)"
    using assms(4) by (simp add: isDefault_eq)
  show ?thesis
    using e d by (simp add: isDefault_eq equal_value)
qed


lemma example_store_a_value:
  "example_store_a = \<lparr> heap = [ImpFillGradientAttribute_default], SINGLETON = None \<rparr>"
  by (simp add: example_store_a_def FillGradientAttribute_ctor_def initial_store_def black_def
      ctor_default_values)

lemma example_store_b_value:
  "example_store_b =
     \<lparr> heap = [ImpFillGradientAttribute_default, ImpFillGradientAttribute_default],
       SINGLETON = Some 1 \<rparr>"
  by (simp add: example_store_b_def example_store_a_value default_eq theGlobalDefault_def)



section \<open>Claims about equality and the default instance\<close>

text \<open>
  C8. \<^verbatim>\<open>operator==\<close> returns true iff both handles are the default instance, or
  neither is and style, border, offsetX, offsetY, angle, steps and the canonical stop
  sequence compare equal. The fields are read in the store the call leaves behind, which
  holds the same object for every allocated handle. In particular an explicitly
  constructed instance is never the default and never equal to a default instance, in
  either order, at any later time; this holds also for an instance constructed with the
  default's own values, whose fields are identical to the default's.
\<close>

theorem operator_equal_iff:
  "fst (FillGradientAttribute_equal h rCandidate s) =
     (let s' = snd (FillGradientAttribute_equal h rCandidate s) in
      (fst (isDefault h s) \<and> fst (isDefault rCandidate s))
      \<or> (\<not> fst (isDefault h s) \<and> \<not> fst (isDefault rCandidate s)
         \<and> getStyle h s' = getStyle rCandidate s' \<and> getBorder h s' = getBorder rCandidate s'
         \<and> getOffsetX h s' = getOffsetX rCandidate s'
         \<and> getOffsetY h s' = getOffsetY rCandidate s'
         \<and> getAngle h s' = getAngle rCandidate s' \<and> getSteps h s' = getSteps rCandidate s'
         \<and> getColorSteps h s' = getColorSteps rCandidate s'))
   \<and> (mpFillGradientAttribute h < length (heap s) \<longrightarrow>
        deref h (snd (FillGradientAttribute_equal h rCandidate s)) = deref h s)
   \<and> (store_inv s0
        \<and> FillGradientAttribute_ctor srt eps eStyle fBorder fOffsetX fOffsetY fAngle
             rStartColor rEndColor pColorSteps nSteps s0 = (e, s1)
        \<and> store_step\<^sup>*\<^sup>* s1 s2 \<and> fst (isDefault d s2) \<longrightarrow>
        \<not> fst (isDefault e s2) \<and> \<not> fst (FillGradientAttribute_equal e d s2)
        \<and> \<not> fst (FillGradientAttribute_equal d e s2))
   \<and> ImpFillGradientAttribute_ctor srt eps Linear 0 0 0 0 (BColor 0 0 0) (BColor 0 0 0) None 0
        = ImpFillGradientAttribute_default"
proof -
  have s': "snd (FillGradientAttribute_equal h rCandidate s) = snd (theGlobalDefault s)"
    by (simp add: equal_eq)
  have st: "mpFillGradientAttribute h < length (heap s) \<longrightarrow>
        deref h (snd (FillGradientAttribute_equal h rCandidate s)) = deref h s"
    unfolding s' using deref_stable by blast
  show ?thesis
    using equal_fields[of h rCandidate s] st ctor_default_values[of srt eps]
      explicit_never_equal_default[of s0 srt eps eStyle fBorder fOffsetX fOffsetY fAngle
        rStartColor rEndColor pColorSteps nSteps e s1 s2 d]
    by blast
qed

theorem operator_equal_iff_witness:
  "store_inv initial_store
   \<and> FillGradientAttribute_ctor stable_sort (1 / 1000) Linear 0 0 0 0 black black None 0
        initial_store = (FillGradientAttribute 0, example_store_a)
   \<and> store_step\<^sup>*\<^sup>* example_store_a example_store_b
   \<and> fst (isDefault (FillGradientAttribute 1) example_store_b)
   \<and> mpFillGradientAttribute (FillGradientAttribute 0) < length (heap example_store_b)
   \<and> deref (FillGradientAttribute 0) example_store_b
        = deref (FillGradientAttribute 1) example_store_b
   \<and> \<not> fst (isDefault (FillGradientAttribute 0) example_store_b)
   \<and> \<not> fst (FillGradientAttribute_equal (FillGradientAttribute 0) (FillGradientAttribute 1)
              example_store_b)
   \<and> \<not> fst (FillGradientAttribute_equal (FillGradientAttribute 1) (FillGradientAttribute 0)
              example_store_b)"
proof -
  have inv: "store_inv initial_store"
    by (simp add: store_inv_def initial_store_def)
  have ctor: "FillGradientAttribute_ctor stable_sort (1 / 1000) Linear 0 0 0 0 black black None 0
        initial_store = (FillGradientAttribute 0, example_store_a)"
    by (simp add: example_store_a_def FillGradientAttribute_ctor_def initial_store_def)
  have steps: "store_step\<^sup>*\<^sup>* example_store_a example_store_b"
    unfolding example_store_b_def by (rule r_into_rtranclp) (rule step_default)
  have dflt: "fst (isDefault (FillGradientAttribute 1) example_store_b)"
    by (simp add: isDefault_eq example_store_b_value theGlobalDefault_def)
  have alloc: "mpFillGradientAttribute (FillGradientAttribute 0) < length (heap example_store_b)"
    by (simp add: example_store_b_value)
  have same: "deref (FillGradientAttribute 0) example_store_b
        = deref (FillGradientAttribute 1) example_store_b"
    by (simp add: deref_def example_store_b_value)
  show ?thesis
    using inv ctor steps dflt alloc same
      operator_equal_iff[where h = "FillGradientAttribute 0"
        and rCandidate = "FillGradientAttribute 1" and s = example_store_b
        and ?s0.0 = initial_store and srt = stable_sort and eps = "1 / 1000"
        and eStyle = Linear and fBorder = 0 and fOffsetX = 0 and fOffsetY = 0 and fAngle = 0
        and rStartColor = black and rEndColor = black and pColorSteps = None and nSteps = 0
        and e = "FillGradientAttribute 0" and ?s1.0 = example_store_a
        and ?s2.0 = example_store_b and d = "FillGradientAttribute 1"]
    by blast
qed



end
